theory Spec2Isabelle
  imports Complex_Main "HOL-Library.Sublist"
begin

section \<open>The SPSA tuner and the perft harness, as HOL functions\<close>

text \<open>
  The development follows \<^verbatim>\<open>tuner/spsa_tuner.py\<close> and \<^verbatim>\<open>tests/perft_test.py\<close>.
  Conventions of the embedding:
  \<^item> a Python \<^verbatim>\<open>float\<close> is a \<^typ>\<open>real\<close>: rounding, infinities and NaN of IEEE doubles
    are outside the model. \<^verbatim>\<open>x ** y\<close> with a positive base is \<open>x powr y\<close>; where the
    source computes a power of an unbounded exponent outside any \<^verbatim>\<open>try\<close>, the
    \<^verbatim>\<open>OverflowError\<close> of a result beyond the largest double is a branch of the model
    (the conversion of an integer of more than 308 digits to a double is not);
  \<^item> a Python \<^verbatim>\<open>str\<close> is a \<^typ>\<open>string\<close> whose characters are the code points below 256;
  \<^item> a \<^verbatim>\<open>dict\<close> keyed by parameter names is a map \<open>string \<rightharpoonup> real\<close>;
  \<^item> an exception is a value \<open>Inl e\<close> of a sum type, and a \<^verbatim>\<open>try/except\<close> is a case
    distinction on it;
  \<^item> what the outside world answers (the random draws, the runs of the engine and of
    the match runner) is an argument of the function that asks for it.
\<close>

subsection \<open>Exceptions and external processes\<close>

datatype py_error =
  ZeroDivisionError | TimeoutExpired | OSError | ValueError | IndexError | OverflowError

text \<open>
  One run of an external program as \<^verbatim>\<open>subprocess.run\<close> sees it: whether it can be
  launched at all, how many seconds it needs, and what it writes to its standard output.
\<close>

record process =
  launch_fails :: bool
  duration :: real
  stdout :: string

text \<open>
  \<^verbatim>\<open>subprocess.run(cmd, ..., timeout=t)\<close>: raises when the program cannot be started,
  raises \<^verbatim>\<open>TimeoutExpired\<close> when it is still running after \<open>t\<close> seconds, and returns
  the captured output otherwise.
\<close>

definition subprocess_run :: "real \<Rightarrow> process \<Rightarrow> py_error + string" where
  "subprocess_run timeout p =
     (if launch_fails p then Inl OSError
      else if timeout < duration p then Inl TimeoutExpired
      else Inr (stdout p))"

subsection \<open>Strings as Python reads them\<close>

text \<open>\<^verbatim>\<open>str.isspace\<close> on the code points below 256.\<close>

definition py_isspace :: "char \<Rightarrow> bool" where
  "py_isspace c =
     (let n = (of_char c :: nat)
      in (9 \<le> n \<and> n \<le> 13) \<or> (28 \<le> n \<and> n \<le> 32) \<or> n = 133 \<or> n = 160)"

text \<open>\<^verbatim>\<open>s.split()\<close>: the maximal runs of non-whitespace characters.\<close>

fun words_acc :: "string \<Rightarrow> string \<Rightarrow> string list" where
  "words_acc cur [] = (if cur = [] then [] else [cur])"
| "words_acc cur (c # cs) =
     (if py_isspace c then (if cur = [] then words_acc [] cs else cur # words_acc [] cs)
      else words_acc (cur @ [c]) cs)"

definition py_split_ws :: "string \<Rightarrow> string list" where
  "py_split_ws s = words_acc [] s"

text \<open>\<^verbatim>\<open>s.strip()\<close>.\<close>

definition py_strip :: "string \<Rightarrow> string" where
  "py_strip s = rev (dropWhile py_isspace (rev (dropWhile py_isspace s)))"

text \<open>
  \<^verbatim>\<open>s.split(sep)\<close> for a non-empty separator: the pieces between the occurrences of
  \<open>sep\<close>, found from the left and not overlapping. There is always at least one piece.
\<close>

function split_acc :: "string \<Rightarrow> string \<Rightarrow> string \<Rightarrow> string list" where
  "split_acc sep cur [] = [cur]"
| "split_acc sep cur (c # cs) =
     (if sep \<noteq> [] \<and> prefix sep (c # cs)
      then cur # split_acc sep [] (drop (length sep) (c # cs))
      else split_acc sep (cur @ [c]) cs)"
  by pat_completeness auto
termination
  by (relation "measure (\<lambda>(sep, cur, s). length s)") auto

definition py_split :: "string \<Rightarrow> string \<Rightarrow> string list" where
  "py_split sep s = split_acc sep [] s"

text \<open>\<^verbatim>\<open>sub in s\<close>.\<close>

fun py_in :: "string \<Rightarrow> string \<Rightarrow> bool" where
  "py_in sub [] = (sub = [])"
| "py_in sub (c # cs) = (prefix sub (c # cs) \<or> py_in sub cs)"

text \<open>
  \<^verbatim>\<open>int(s)\<close> on a string: surrounding whitespace is dropped, then an optional sign, then
  decimal digits, where single underscores may stand between two digits. Anything else
  raises \<^verbatim>\<open>ValueError\<close> (\<open>None\<close> here). The interpreter's limit on the number of digits
  of one conversion is not modelled.
\<close>

definition is_digit :: "char \<Rightarrow> bool" where
  "is_digit c = (let n = (of_char c :: nat) in 48 \<le> n \<and> n \<le> 57)"

definition digit_val :: "char \<Rightarrow> nat" where
  "digit_val c = of_char c - 48"

fun digits_acc :: "nat \<Rightarrow> string \<Rightarrow> nat option" where
  "digits_acc n [] = Some n"
| "digits_acc n [c] = (if is_digit c then Some (10 * n + digit_val c) else None)"
| "digits_acc n (c # d # ds) =
     (if is_digit c then digits_acc (10 * n + digit_val c) (d # ds)
      else if c = CHR ''_'' \<and> is_digit d then digits_acc (10 * n + digit_val d) ds
      else None)"

definition py_nat :: "string \<Rightarrow> nat option" where
  "py_nat s = (case s of [] \<Rightarrow> None
               | c # cs \<Rightarrow> if is_digit c then digits_acc (digit_val c) cs else None)"

definition py_int :: "string \<Rightarrow> int option" where
  "py_int s =
     (case py_strip s of
        [] \<Rightarrow> None
      | c # cs \<Rightarrow>
          if c = CHR ''-'' then map_option (\<lambda>n. - int n) (py_nat cs)
          else if c = CHR ''+'' then map_option int (py_nat cs)
          else map_option int (py_nat (c # cs)))"

subsection \<open>Tunable parameters\<close>

text \<open>The dataclass \<^verbatim>\<open>TunableParam\<close>; its field \<^verbatim>\<open>value\<close> is \<open>val\<close> here.\<close>

record TunableParam =
  name :: string
  val :: real
  min_val :: real
  max_val :: real
  c_end :: real
  a_end :: real

text \<open>\<^verbatim>\<open>__post_init__\<close>: a perturbation or step size left at 0 is derived from the range.\<close>

definition post_init :: "TunableParam \<Rightarrow> TunableParam" where
  "post_init p =
     (let p1 = (if c_end p = 0
                then p\<lparr>c_end := max 1 ((max_val p - min_val p) * (2 / 100))\<rparr> else p)
      in if a_end p1 = 0 then p1\<lparr>a_end := c_end p1 * (1 / 10)\<rparr> else p1)"

text \<open>The constructor with both sizes given, and with both defaulted to 0.\<close>

definition TunableParam_init ::
  "string \<Rightarrow> real \<Rightarrow> real \<Rightarrow> real \<Rightarrow> real \<Rightarrow> real \<Rightarrow> TunableParam" where
  "TunableParam_init n v lo hi c a =
     post_init \<lparr>name = n, val = v, min_val = lo, max_val = hi, c_end = c, a_end = a\<rparr>"

definition TunableParam4 :: "string \<Rightarrow> real \<Rightarrow> real \<Rightarrow> real \<Rightarrow> TunableParam" where
  "TunableParam4 n v lo hi = TunableParam_init n v lo hi 0 0"

text \<open>\<^verbatim>\<open>TunableParam.clamp\<close>.\<close>

definition clamp :: "TunableParam \<Rightarrow> real \<Rightarrow> real" where
  "clamp p v = max (min_val p) (min (max_val p) v)"

text \<open>\<^verbatim>\<open>DEFAULT_PARAMS\<close>, in the order of the source.\<close>

definition DEFAULT_PARAMS :: "TunableParam list" where
  "DEFAULT_PARAMS =
    [TunableParam4 ''PawnValueMG'' 100 70 130,
     TunableParam4 ''KnightValueMG'' 320 280 360,
     TunableParam4 ''BishopValueMG'' 330 290 370,
     TunableParam4 ''RookValueMG'' 500 450 550,
     TunableParam4 ''QueenValueMG'' 950 850 1050,
     TunableParam4 ''PawnValueEG'' 130 100 160,
     TunableParam4 ''KnightValueEG'' 340 300 380,
     TunableParam4 ''BishopValueEG'' 350 310 390,
     TunableParam4 ''RookValueEG'' 550 500 600,
     TunableParam4 ''QueenValueEG'' 1000 900 1100,
     TunableParam4 ''BishopPairBonusMG'' 30 0 60,
     TunableParam4 ''RookOpenFileBonusMG'' 25 0 50,
     TunableParam4 ''RookSemiOpenFileBonusMG'' 11 0 30,
     TunableParam4 ''RookOnSeventhBonusMG'' 20 0 50,
     TunableParam4 ''KnightOutpostBonusMG'' 25 0 50,
     TunableParam4 ''BishopPairBonusEG'' 50 20 80,
     TunableParam4 ''RookOpenFileBonusEG'' 15 0 40,
     TunableParam4 ''RookSemiOpenFileBonusEG'' 3 0 20,
     TunableParam4 ''RookOnSeventhBonusEG'' 30 0 60,
     TunableParam4 ''KnightOutpostBonusEG'' 15 0 40,
     TunableParam4 ''IsolatedPawnPenaltyMG'' (- 45) (- 70) (- 10),
     TunableParam4 ''DoubledPawnPenaltyMG'' (- 16) (- 40) 0,
     TunableParam4 ''BackwardPawnPenaltyMG'' (- 10) (- 30) 0,
     TunableParam4 ''ConnectedPawnBonusMG'' 5 0 20,
     TunableParam4 ''PhalanxBonusMG'' 10 0 25,
     TunableParam4 ''IsolatedPawnPenaltyEG'' (- 20) (- 50) 0,
     TunableParam4 ''DoubledPawnPenaltyEG'' (- 21) (- 50) 0,
     TunableParam4 ''BackwardPawnPenaltyEG'' (- 15) (- 35) 0,
     TunableParam4 ''ConnectedPawnBonusEG'' 2 0 15,
     TunableParam4 ''PhalanxBonusEG'' 8 0 20,
     TunableParam4 ''KingSafetyWeight'' 83 50 150]"

subsection \<open>The coefficient schedule\<close>

text \<open>The hyperparameters set in \<^verbatim>\<open>SPSATuner.__init__\<close>.\<close>

definition A :: real where "A = 10"
definition alpha :: real where "alpha = 602 / 1000"
definition gamma :: real where "gamma = 101 / 1000"

text \<open>
  \<^verbatim>\<open>_get_spsa_coefficients\<close>. The argument is the iteration counter, which starts at 0
  and is only ever incremented, so both bases are positive.
\<close>

definition get_spsa_coefficients :: "nat \<Rightarrow> real \<times> real" where
  "get_spsa_coefficients k =
     (let a_k = 1 / ((A + real k + 1) powr alpha);
          c_k = 1 / ((real k + 1) powr gamma)
      in (a_k, c_k))"

subsection \<open>Perturbation\<close>

type_synonym dict = "string \<rightharpoonup> real"

text \<open>
  \<^verbatim>\<open>_generate_perturbation\<close>: one draw of \<^verbatim>\<open>random.randint(0, 1)\<close> per parameter;
  \<open>randint i\<close> tells whether the \<open>i\<close>-th draw of the iteration is 1.
\<close>

definition generate_perturbation :: "(nat \<Rightarrow> bool) \<Rightarrow> TunableParam list \<Rightarrow> int list" where
  "generate_perturbation randint ps =
     map (\<lambda>i. 2 * (if randint i then 1 else 0) - 1) [0..<length ps]"

text \<open>The first loop of \<^verbatim>\<open>iterate\<close>: the two perturbed parameter sets.\<close>

fun perturb :: "real \<Rightarrow> int list \<Rightarrow> (nat \<times> TunableParam) list \<Rightarrow> dict \<times> dict \<Rightarrow> dict \<times> dict" where
  "perturb c_k delta [] acc = acc"
| "perturb c_k delta ((i, param) # rest) (params_plus, params_minus) =
     (let perturbation = c_k * c_end param * real_of_int (delta ! i)
      in perturb c_k delta rest
           (params_plus(name param \<mapsto> clamp param (val param + perturbation)),
            params_minus(name param \<mapsto> clamp param (val param - perturbation))))"

subsection \<open>The match-based estimator\<close>

text \<open>Sequencing of computations that may raise, list indexing and \<^verbatim>\<open>int(...)\<close>.\<close>

definition on_ok :: "py_error + 'a \<Rightarrow> ('a \<Rightarrow> py_error + 'b) \<Rightarrow> py_error + 'b" where
  "on_ok r f = (case r of Inl e \<Rightarrow> Inl e | Inr x \<Rightarrow> f x)"

definition item :: "'a list \<Rightarrow> nat \<Rightarrow> py_error + 'a" where
  "item xs i = (if i < length xs then Inr (xs ! i) else Inl IndexError)"

definition int_of :: "string \<Rightarrow> py_error + int" where
  "int_of s = (case py_int s of None \<Rightarrow> Inl ValueError | Some n \<Rightarrow> Inr n)"

text \<open>
  The body of the \<^verbatim>\<open>if 'Score of Plus vs Minus' in line\<close> branch of \<^verbatim>\<open>_run_games\<close>:
  the counts are the tokens 0, 2 and 4 of what follows the first colon.
\<close>

definition parse_score_line :: "string \<Rightarrow> py_error + (int \<times> int \<times> int)" where
  "parse_score_line line =
     on_ok (item (py_split '':'' line) 1) (\<lambda>field.
       let parts = py_split_ws (py_strip field) in
       on_ok (on_ok (item parts 0) int_of) (\<lambda>wins_plus.
       on_ok (on_ok (item parts 2) int_of) (\<lambda>wins_minus.
       on_ok (on_ok (item parts 4) int_of) (\<lambda>draws.
       Inr (wins_plus, wins_minus, draws)))))"

text \<open>The loop over the lines: the counts stay 0 when no line matches; the first match ends it.\<close>

fun find_score_line :: "string list \<Rightarrow> py_error + (int \<times> int \<times> int)" where
  "find_score_line [] = Inr (0, 0, 0)"
| "find_score_line (line # ls) =
     (if py_in ''Score of Plus vs Minus'' line then parse_score_line line
      else find_score_line ls)"

definition score_of_counts :: "int \<times> int \<times> int \<Rightarrow> real \<times> real" where
  "score_of_counts cnt =
     (case cnt of (wins_plus, wins_minus, draws) \<Rightarrow>
        let total = wins_plus + wins_minus + draws
        in if total = 0 then (1 / 2, 1 / 2)
           else ((real_of_int wins_plus + real_of_int draws * (1 / 2)) / real_of_int total,
                 (real_of_int wins_minus + real_of_int draws * (1 / 2)) / real_of_int total))"

text \<open>
  \<^verbatim>\<open>_run_games\<close>, given the run of the match runner that its command line starts. Both
  \<^verbatim>\<open>except\<close> clauses return the neutral pair.
\<close>

definition run_games :: "process \<Rightarrow> real \<times> real" where
  "run_games p =
     (case subprocess_run 3600 p of
        Inl e \<Rightarrow> (1 / 2, 1 / 2)
      | Inr output \<Rightarrow>
          (case find_score_line (py_split [CHR 0x0A] output) of
             Inl e \<Rightarrow> (1 / 2, 1 / 2)
           | Inr cnt \<Rightarrow> score_of_counts cnt))"

subsection \<open>The evaluation-based estimator\<close>

text \<open>
  The first token after the marker, read as an integer: \<^verbatim>\<open>int(parts[1].split()[0])\<close>.
\<close>

definition first_int :: "string \<Rightarrow> py_error + int" where
  "first_int s = on_ok (item (py_split_ws s) 0) int_of"

text \<open>
  What one line of the engine's output does to the loop of \<^verbatim>\<open>get_eval\<close>: \<open>None\<close> when
  the loop goes on to the next line, otherwise the value returned or the exception raised.
\<close>

definition eval_line :: "string \<Rightarrow> (py_error + int) option" where
  "eval_line line =
     (if py_in ''score cp'' line then
        (let parts = py_split ''score cp '' line
         in if length parts > 1 then Some (first_int (parts ! 1)) else None)
      else if py_in ''score mate'' line then
        (let parts = py_split ''score mate '' line
         in if length parts > 1
            then Some (on_ok (first_int (parts ! 1))
                         (\<lambda>mate. Inr (if mate > 0 then 10000 else - 10000)))
            else None)
      else None)"

fun scan_eval :: "string list \<Rightarrow> py_error + int" where
  "scan_eval [] = Inr 0"
| "scan_eval (line # ls) =
     (case eval_line line of Some r \<Rightarrow> r | None \<Rightarrow> scan_eval ls)"

text \<open>
  \<^verbatim>\<open>get_eval\<close>, given the run of the engine on one position: the lines are read from the
  last to the first, and the bare \<^verbatim>\<open>except\<close> turns every exception into 0.
\<close>

definition get_eval :: "process \<Rightarrow> int" where
  "get_eval p =
     (case subprocess_run 15 p of
        Inl e \<Rightarrow> 0
      | Inr output \<Rightarrow>
          (case scan_eval (rev (py_split [CHR 0x0A] output)) of
             Inl e \<Rightarrow> 0
           | Inr score \<Rightarrow> score))"

text \<open>
  The loop of \<^verbatim>\<open>_run_games_simple\<close> over the sampled positions; each position comes with
  the two runs of the engine on it, first with the plus set, then with the minus set.
\<close>

fun eval_loop :: "(process \<times> process) list \<Rightarrow> real \<times> nat \<Rightarrow> real \<times> nat" where
  "eval_loop [] acc = acc"
| "eval_loop ((run_plus, run_minus) # rest) (total_diff, positions_tested) =
     (let eval_plus = get_eval run_plus;
          eval_minus = get_eval run_minus;
          diff = eval_plus - eval_minus
      in eval_loop rest (total_diff + real_of_int diff, positions_tested + 1))"

text \<open>
  The largest finite double, and \<^verbatim>\<open>x ** y\<close> for a positive \<open>x\<close> and a float \<open>y\<close>: Python
  raises \<^verbatim>\<open>OverflowError\<close> when the power is too large for a double.
\<close>

definition float_max :: real where
  "float_max = (2 - 1 / 2 ^ 52) * 2 ^ 1023"

definition float_pow :: "real \<Rightarrow> real \<Rightarrow> py_error + real" where
  "float_pow x y = (if float_max < x powr y then Inl OverflowError else Inr (x powr y))"

text \<open>
  The rest of \<^verbatim>\<open>_run_games_simple\<close>. The power stands outside every \<^verbatim>\<open>try\<close>, so its
  \<^verbatim>\<open>OverflowError\<close> leaves the function.
\<close>

definition run_games_simple :: "(process \<times> process) list \<Rightarrow> py_error + (real \<times> real)" where
  "run_games_simple runs =
     (case eval_loop runs (0, 0) of (total_diff, positions_tested) \<Rightarrow>
        let avg_diff = total_diff / real (max 1 positions_tested)
        in on_ok (float_pow 10 (- avg_diff / 100)) (\<lambda>power.
             let score_plus = 1 / (1 + power);
                 score_minus = 1 - score_plus
             in Inr (score_plus, score_minus)))"

subsection \<open>The gradient step\<close>

text \<open>
  The body of the second loop of \<^verbatim>\<open>iterate\<close> for one parameter with its sign \<open>d\<close>.
  Python raises on a division by zero.
\<close>

definition gradient_of :: "real \<Rightarrow> real \<Rightarrow> real \<Rightarrow> int \<Rightarrow> TunableParam \<Rightarrow> py_error + real" where
  "gradient_of c_k score_plus score_minus d param =
     (let denom = 2 * c_k * c_end param * real_of_int d
      in if denom = 0 then Inl ZeroDivisionError
         else Inr ((score_plus - score_minus) / denom))"

definition step_of :: "real \<Rightarrow> TunableParam \<Rightarrow> real \<Rightarrow> real" where
  "step_of a_k param gradient = a_k * a_end param * gradient"

definition update_param ::
  "real \<Rightarrow> real \<Rightarrow> real \<Rightarrow> real \<Rightarrow> int \<Rightarrow> TunableParam \<Rightarrow> py_error + TunableParam" where
  "update_param a_k c_k score_plus score_minus d param =
     (if d \<noteq> 0 then
        on_ok (gradient_of c_k score_plus score_minus d param) (\<lambda>gradient.
          let step = step_of a_k param gradient
          in Inr (param\<lparr>val := clamp param (val param + step)\<rparr>))
      else Inr param)"

fun update_all ::
  "real \<Rightarrow> real \<Rightarrow> real \<Rightarrow> real \<Rightarrow> int list \<Rightarrow> (nat \<times> TunableParam) list
     \<Rightarrow> py_error + TunableParam list" where
  "update_all a_k c_k score_plus score_minus delta [] = Inr []"
| "update_all a_k c_k score_plus score_minus delta ((i, param) # rest) =
     on_ok (update_param a_k c_k score_plus score_minus (delta ! i) param) (\<lambda>param'.
     on_ok (update_all a_k c_k score_plus score_minus delta rest) (\<lambda>rest'.
     Inr (param' # rest')))"

subsection \<open>The tuner\<close>

record IterationRecord =
  r_iteration :: nat
  r_score_plus :: real
  r_score_minus :: real
  r_best_score :: real
  r_best_iteration :: nat
  r_params :: dict

record SPSATuner =
  params :: "TunableParam list"
  iteration :: nat
  current_params :: dict
  best_params :: dict
  best_score :: real
  best_iteration :: nat
  history :: "IterationRecord list"

text \<open>\<^verbatim>\<open>{p.name: p.value for p in params}\<close>: a later parameter of the same name wins.\<close>

definition dict_of :: "TunableParam list \<Rightarrow> dict" where
  "dict_of ps = fold (\<lambda>p m. m(name p \<mapsto> val p)) ps Map.empty"

text \<open>The part of \<^verbatim>\<open>SPSATuner.__init__\<close> that the iteration reads and writes.\<close>

definition SPSATuner_init :: "TunableParam list \<Rightarrow> SPSATuner" where
  "SPSATuner_init ps =
     \<lparr>params = ps, iteration = 0, current_params = dict_of ps, best_params = dict_of ps,
      best_score = 1 / 2, best_iteration = 0, history = []\<rparr>"

text \<open>
  What the outside world answers during one iteration: the random draws, the run of the
  match runner started for the two parameter sets, and the runs of the engine on the
  sampled positions.
\<close>

record environment =
  randint :: "nat \<Rightarrow> bool"
  cutechess :: "dict \<Rightarrow> dict \<Rightarrow> process"
  engine_runs :: "dict \<Rightarrow> dict \<Rightarrow> (process \<times> process) list"

text \<open>
  The choice of the estimator in \<^verbatim>\<open>iterate\<close>. The match-based one catches every
  exception; the evaluation-based one may raise.
\<close>

definition estimate ::
  "environment \<Rightarrow> bool \<Rightarrow> dict \<Rightarrow> dict \<Rightarrow> py_error + (real \<times> real)" where
  "estimate env use_simple_games params_plus params_minus =
     (if use_simple_games then run_games_simple (engine_runs env params_plus params_minus)
      else Inr (run_games (cutechess env params_plus params_minus)))"

text \<open>The best-score bookkeeping at the end of \<^verbatim>\<open>iterate\<close>.\<close>

definition track_best :: "real \<Rightarrow> nat \<Rightarrow> SPSATuner \<Rightarrow> SPSATuner" where
  "track_best score_plus k t =
     (let combined_score = score_plus
      in if combined_score > best_score t
         then t\<lparr>best_score := combined_score, best_params := current_params t,
                best_iteration := k\<rparr>
         else t)"

definition perturbed :: "environment \<Rightarrow> SPSATuner \<Rightarrow> dict \<times> dict" where
  "perturbed env t =
     (let k = iteration t + 1;
          c_k = snd (get_spsa_coefficients k);
          delta = generate_perturbation (randint env) (params t)
      in perturb c_k delta (enumerate 0 (params t)) (Map.empty, Map.empty))"

text \<open>
  \<^verbatim>\<open>SPSATuner.iterate\<close>: the new state of the tuner and the record it returns, or the
  exception that leaves it (of the estimator, or of the division in the update loop).
\<close>

definition iterate ::
  "environment \<Rightarrow> bool \<Rightarrow> SPSATuner \<Rightarrow> py_error + (SPSATuner \<times> IterationRecord)" where
  "iterate env use_simple_games t =
     (let k = iteration t + 1;
          (a_k, c_k) = get_spsa_coefficients k;
          delta = generate_perturbation (randint env) (params t);
          (params_plus, params_minus) =
             perturb c_k delta (enumerate 0 (params t)) (Map.empty, Map.empty)
      in on_ok (estimate env use_simple_games params_plus params_minus)
           (\<lambda>(score_plus, score_minus).
      on_ok (update_all a_k c_k score_plus score_minus delta (enumerate 0 (params t)))
           (\<lambda>ps.
              let t1 = t\<lparr>params := ps, iteration := k, current_params := dict_of ps\<rparr>;
                  t2 = track_best score_plus k t1;
                  result = \<lparr>r_iteration = k, r_score_plus = score_plus,
                            r_score_minus = score_minus, r_best_score = best_score t2,
                            r_best_iteration = best_iteration t2,
                            r_params = current_params t2\<rparr>
              in Inr (t2\<lparr>history := history t2 @ [result]\<rparr>, result))))"

text \<open>
  The loop of \<^verbatim>\<open>SPSATuner.run\<close>: iteration \<open>i\<close> of \<^verbatim>\<open>range(iterations)\<close> meets the
  environment \<open>envs i\<close>. An exception of an iteration ends the loop.
\<close>

fun run :: "(nat \<Rightarrow> environment) \<Rightarrow> bool \<Rightarrow> nat \<Rightarrow> SPSATuner \<Rightarrow> py_error + SPSATuner" where
  "run envs use_simple_games 0 t = Inr t"
| "run envs use_simple_games (Suc n) t =
     on_ok (run envs use_simple_games n t) (\<lambda>t'.
     on_ok (iterate (envs n) use_simple_games t') (\<lambda>(t'', result). Inr t''))"

text \<open>
  Notions the statements below use: a parameter within its bounds, a dictionary whose
  every entry lies within the bounds of a parameter of that name, and what the estimator
  returns or raises in the iteration started in state \<open>t\<close>.
\<close>

definition in_bounds :: "TunableParam \<Rightarrow> bool" where
  "in_bounds p = (min_val p \<le> val p \<and> val p \<le> max_val p)"

definition entries_bounded :: "TunableParam list \<Rightarrow> dict \<Rightarrow> bool" where
  "entries_bounded ps m =
     (\<forall>n v. m n = Some v \<longrightarrow> (\<exists>p \<in> set ps. name p = n \<and> min_val p \<le> v \<and> v \<le> max_val p))"

definition iteration_scores ::
  "environment \<Rightarrow> bool \<Rightarrow> SPSATuner \<Rightarrow> py_error + (real \<times> real)" where
  "iteration_scores env use_simple_games t =
     estimate env use_simple_games (fst (perturbed env t)) (snd (perturbed env t))"

text \<open>
  A small session for the concrete instances below: one default parameter, a match runner
  that cannot be started, and match runners that report a given result.
\<close>

definition pawn_param :: TunableParam where
  "pawn_param = TunableParam4 ''PawnValueMG'' 100 70 130"

definition no_runner :: process where
  "no_runner = \<lparr>launch_fails = True, duration = 0, stdout = []\<rparr>"

definition runner_reporting :: "string \<Rightarrow> process" where
  "runner_reporting out = \<lparr>launch_fails = False, duration = 60, stdout = out\<rparr>"

definition env_with :: "process \<Rightarrow> environment" where
  "env_with p = \<lparr>randint = (\<lambda>i. True), cutechess = (\<lambda>params_plus params_minus. p),
                 engine_runs = (\<lambda>params_plus params_minus. [])\<rparr>"



text \<open>
  The evaluation-based estimator in the words of its description: the difference that one
  position contributes, the average over the sampled positions, and the logistic map.
\<close>

definition position_diff :: "process \<times> process \<Rightarrow> int" where
  "position_diff runs = get_eval (fst runs) - get_eval (snd runs)"

definition avg_diff :: "(process \<times> process) list \<Rightarrow> real" where
  "avg_diff runs = real_of_int (sum_list (map position_diff runs)) / real (max 1 (length runs))"





definition engine_reporting :: "string \<Rightarrow> process" where
  "engine_reporting out = \<lparr>launch_fails = False, duration = 1, stdout = out\<rparr>"

subsection \<open>The persisted results\<close>

text \<open>\<^verbatim>\<open>int(x)\<close> on a float truncates towards zero.\<close>

definition py_trunc :: "real \<Rightarrow> int" where
  "py_trunc x = (if 0 \<le> x then \<lfloor>x\<rfloor> else \<lceil>x\<rceil>)"

record results =
  total_iterations :: nat
  summary_best_score :: real
  summary_best_iteration :: nat
  final_params :: "string \<rightharpoonup> int"
  out_best_params :: "string \<rightharpoonup> int"
  initial_params :: "string \<rightharpoonup> int"
  out_history :: "IterationRecord list"

text \<open>
  The comprehension of \<^verbatim>\<open>save_results\<close> behind the key \<^verbatim>\<open>initial_params\<close>: it runs
  over the module's \<^verbatim>\<open>DEFAULT_PARAMS\<close>.
\<close>

definition initial_params_of :: "TunableParam list \<Rightarrow> (string \<rightharpoonup> int)" where
  "initial_params_of defaults =
     fold (\<lambda>p m. m(name p \<mapsto> py_trunc (min_val p + (max_val p - min_val p) / 2)))
       defaults Map.empty"

text \<open>
  The dictionary that \<^verbatim>\<open>save_results\<close> writes as JSON. \<^verbatim>\<open>round(x, 4)\<close> rounds the
  double that holds the best score, which a function on the reals cannot reproduce; it is
  the argument \<open>round4\<close>.
\<close>

definition save_results :: "(real \<Rightarrow> real) \<Rightarrow> SPSATuner \<Rightarrow> results" where
  "save_results round4 t =
     \<lparr>total_iterations = iteration t,
      summary_best_score = round4 (best_score t),
      summary_best_iteration = best_iteration t,
      final_params = map_option py_trunc \<circ> current_params t,
      out_best_params = map_option py_trunc \<circ> best_params t,
      initial_params = initial_params_of DEFAULT_PARAMS,
      out_history = history t\<rparr>"

text \<open>
  The tuner as \<^verbatim>\<open>main\<close> builds it: a fresh copy of every default parameter, with its
  name, value and bounds.
\<close>

definition main_params :: "TunableParam list" where
  "main_params =
     map (\<lambda>p. TunableParam4 (name p) (val p) (min_val p) (max_val p)) DEFAULT_PARAMS"

subsection \<open>The perft harness\<close>

text \<open>
  The inner loop of \<^verbatim>\<open>run_perft\<close> over the tokens of one line: at the first token
  \<^verbatim>\<open>Nodes:\<close> that has a successor, the successor is converted and returned.
\<close>

fun scan_parts :: "string list \<Rightarrow> (py_error + int) option" where
  "scan_parts [] = None"
| "scan_parts (part # rest) =
     (if part = ''Nodes:'' \<and> rest \<noteq> [] then Some (int_of (hd rest))
      else scan_parts rest)"

fun scan_lines :: "string list \<Rightarrow> (py_error + int) option" where
  "scan_lines [] = None"
| "scan_lines (line # ls) =
     (if py_in ''Nodes:'' line
      then (case scan_parts (py_split_ws line) of Some r \<Rightarrow> Some r | None \<Rightarrow> scan_lines ls)
      else scan_lines ls)"

text \<open>
  \<^verbatim>\<open>run_perft\<close>, given the run of the engine that it starts: every exception, also the
  one of a failed conversion, ends in \<open>-1\<close>.
\<close>

definition run_perft :: "process \<Rightarrow> int" where
  "run_perft p =
     (case subprocess_run 300 p of
        Inl e \<Rightarrow> - 1
      | Inr output \<Rightarrow>
          (case scan_lines (py_split [CHR 0x0A] output) of
             Some (Inr nodes) \<Rightarrow> nodes
           | Some (Inl e) \<Rightarrow> - 1
           | None \<Rightarrow> - 1))"


text \<open>
  The tokens of a line hold a token \<^verbatim>\<open>Nodes:\<close> that is directly followed by a token
  which \<^verbatim>\<open>int\<close> accepts.
\<close>

fun nodes_with_int :: "string list \<Rightarrow> bool" where
  "nodes_with_int (a # b # rest) =
     ((a = ''Nodes:'' \<and> py_int b \<noteq> None) \<or> nodes_with_int (b # rest))"
| "nodes_with_int parts = False"

subsection \<open>Theorems\<close>

lemma coefficients_fst: "fst (get_spsa_coefficients k) = 1 / ((A + real k + 1) powr alpha)"
  by (simp add: get_spsa_coefficients_def)

lemma coefficients_snd: "snd (get_spsa_coefficients k) = 1 / ((real k + 1) powr gamma)"
  by (simp add: get_spsa_coefficients_def)

subsection \<open>The coefficient schedule decreases\<close>

lemma a_k_decreasing:
  assumes "1 \<le> (k::nat)"
  shows "1 / ((A + real k + 1) powr alpha) < 1 / ((A + real (k - 1) + 1) powr alpha)"
proof -
  have lt: "A + real (k - 1) + 1 < A + real k + 1" using assms by simp
  have nn: "0 \<le> A + real (k - 1) + 1" by (simp add: A_def)
  have "(A + real (k - 1) + 1) powr alpha < (A + real k + 1) powr alpha"
    using powr_less_mono2 [OF _ nn lt] by (simp add: alpha_def)
  moreover have "0 < (A + real (k - 1) + 1) powr alpha" by (simp add: A_def)
  ultimately show ?thesis by (simp add: frac_less2)
qed

lemma c_k_decreasing:
  assumes "1 \<le> (k::nat)"
  shows "1 / ((real k + 1) powr gamma) < 1 / ((real (k - 1) + 1) powr gamma)"
proof -
  have lt: "real (k - 1) + 1 < real k + 1" using assms by simp
  have nn: "0 \<le> real (k - 1) + 1" by simp
  have "(real (k - 1) + 1) powr gamma < (real k + 1) powr gamma"
    using powr_less_mono2 [OF _ nn lt] by (simp add: gamma_def)
  moreover have "0 < (real (k - 1) + 1) powr gamma" by simp
  ultimately show ?thesis by (simp add: frac_less2)
qed

text \<open>
  C8. With \<open>A = 10\<close>, \<open>alpha = 0.602\<close> and \<open>gamma = 0.101\<close> the schedule returns
  \<open>a_k = 1 / (A + k + 1)^alpha\<close> and \<open>c_k = 1 / (k + 1)^gamma\<close>, a function of \<open>k\<close>
  alone; for every \<open>k \<ge> 1\<close> both are strictly positive and strictly smaller than their
  values at \<open>k - 1\<close>. (Over the reals; the rounding of doubles is not modelled.)
\<close>

theorem coefficients_positive_decreasing:
  assumes "1 \<le> k"
  shows "get_spsa_coefficients k =
           (1 / ((10 + real k + 1) powr (602 / 1000)), 1 / ((real k + 1) powr (101 / 1000)))
         \<and> 0 < fst (get_spsa_coefficients k) \<and> 0 < snd (get_spsa_coefficients k)
         \<and> fst (get_spsa_coefficients k) < fst (get_spsa_coefficients (k - 1))
         \<and> snd (get_spsa_coefficients k) < snd (get_spsa_coefficients (k - 1))"
proof -
  have "get_spsa_coefficients k =
           (1 / ((10 + real k + 1) powr (602 / 1000)), 1 / ((real k + 1) powr (101 / 1000)))"
    by (simp add: get_spsa_coefficients_def A_def alpha_def gamma_def)
  moreover have "0 < fst (get_spsa_coefficients k)"
    by (simp add: coefficients_fst A_def)
  moreover have "0 < snd (get_spsa_coefficients k)"
    by (simp add: coefficients_snd)
  moreover have "fst (get_spsa_coefficients k) < fst (get_spsa_coefficients (k - 1))"
    unfolding coefficients_fst using a_k_decreasing [OF assms] .
  moreover have "snd (get_spsa_coefficients k) < snd (get_spsa_coefficients (k - 1))"
    unfolding coefficients_snd using c_k_decreasing [OF assms] .
  ultimately show ?thesis by blast
qed

theorem coefficients_positive_decreasing_witness:
  "get_spsa_coefficients 1 =
     (1 / ((10 + real 1 + 1) powr (602 / 1000)), 1 / ((real 1 + 1) powr (101 / 1000)))
   \<and> 0 < fst (get_spsa_coefficients 1) \<and> 0 < snd (get_spsa_coefficients 1)
   \<and> fst (get_spsa_coefficients 1) < fst (get_spsa_coefficients (1 - 1))
   \<and> snd (get_spsa_coefficients 1) < snd (get_spsa_coefficients (1 - 1))"
  by (rule coefficients_positive_decreasing) simp

subsection \<open>Bounds and the neutral update\<close>

lemma on_ok_Inl [simp]: "on_ok (Inl e) f = Inl e"
  by (simp add: on_ok_def)

lemma on_ok_Inr [simp]: "on_ok (Inr x) f = f x"
  by (simp add: on_ok_def)

lemma on_ok_eq_Inr: "on_ok r f = Inr y \<longleftrightarrow> (\<exists>x. r = Inr x \<and> f x = Inr y)"
  by (cases r) simp_all

lemma clamp_bounds:
  "min_val p \<le> max_val p \<Longrightarrow> min_val p \<le> clamp p v \<and> clamp p v \<le> max_val p"
  by (simp add: clamp_def)

lemma clamp_id: "min_val p \<le> v \<Longrightarrow> v \<le> max_val p \<Longrightarrow> clamp p v = v"
  by (simp add: clamp_def)

lemma perturb_bounded:
  assumes "\<forall>(i, p) \<in> set xs. p \<in> set ps \<and> min_val p \<le> max_val p"
    and "entries_bounded ps (fst acc)" and "entries_bounded ps (snd acc)"
  shows "entries_bounded ps (fst (perturb c_k delta xs acc))
       \<and> entries_bounded ps (snd (perturb c_k delta xs acc))"
  using assms
proof (induction c_k delta xs acc rule: perturb.induct)
  case (1 c_k delta acc)
  then show ?case by simp
next
  case (2 c_k delta i param rest params_plus params_minus)
  have p: "param \<in> set ps" "min_val param \<le> max_val param"
    using "2.prems"(1) by auto
  let ?off = "c_k * c_end param * real_of_int (delta ! i)"
  let ?acc = "(params_plus(name param \<mapsto> clamp param (val param + ?off)),
               params_minus(name param \<mapsto> clamp param (val param - ?off)))"
  have a: "entries_bounded ps (fst ?acc)"
    using "2.prems"(2) p clamp_bounds [OF p(2)]
    by (auto simp: entries_bounded_def)
  have b: "entries_bounded ps (snd ?acc)"
    using "2.prems"(3) p clamp_bounds [OF p(2)]
    by (auto simp: entries_bounded_def)
  have r: "\<forall>(i, p) \<in> set rest. p \<in> set ps \<and> min_val p \<le> max_val p"
    using "2.prems"(1) by auto
  show ?case
    unfolding perturb.simps Let_def by (rule "2.IH" [OF refl r a b])
qed

lemma set_enumerate_snd: "(i, p) \<in> set (enumerate n xs) \<Longrightarrow> p \<in> set xs"
  by (auto simp: enumerate_eq_zip dest: set_zip_rightD)

lemma perturbed_bounded:
  assumes "\<forall>p \<in> set (params t). min_val p \<le> max_val p"
  shows "entries_bounded (params t) (fst (perturbed env t))
       \<and> entries_bounded (params t) (snd (perturbed env t))"
  unfolding perturbed_def Let_def
  by (rule perturb_bounded) (use assms in \<open>auto simp: entries_bounded_def dest: set_enumerate_snd\<close>)

lemma update_param_Inr:
  assumes "update_param a_k c_k sp sm d p = Inr p'"
  shows "name p' = name p \<and> min_val p' = min_val p \<and> max_val p' = max_val p
       \<and> c_end p' = c_end p \<and> a_end p' = a_end p
       \<and> (in_bounds p \<longrightarrow> in_bounds p')"
  using assms clamp_bounds [of p]
  by (auto simp: update_param_def on_ok_eq_Inr Let_def in_bounds_def split: if_splits)

lemma update_all_Inr:
  assumes "update_all a_k c_k sp sm delta xs = Inr ps'"
  shows "map name ps' = map (name \<circ> snd) xs \<and> map min_val ps' = map (min_val \<circ> snd) xs
       \<and> map max_val ps' = map (max_val \<circ> snd) xs
       \<and> map c_end ps' = map (c_end \<circ> snd) xs \<and> map a_end ps' = map (a_end \<circ> snd) xs
       \<and> ((\<forall>x \<in> set xs. in_bounds (snd x)) \<longrightarrow> (\<forall>p' \<in> set ps'. in_bounds p'))"
  using assms
proof (induction xs arbitrary: ps')
  case Nil
  then show ?case by simp
next
  case (Cons x xs)
  obtain i p where x: "x = (i, p)" by (cases x)
  from Cons.prems obtain p' rest' where
    p': "update_param a_k c_k sp sm (delta ! i) p = Inr p'"
    and r': "update_all a_k c_k sp sm delta xs = Inr rest'"
    and ps': "ps' = p' # rest'"
    by (auto simp: x on_ok_eq_Inr)
  from update_param_Inr [OF p'] Cons.IH [OF r'] show ?case
    by (simp add: x ps')
qed

lemma length_generate_perturbation [simp]:
  "length (generate_perturbation rnd ps) = length ps"
  by (simp add: generate_perturbation_def)

lemma generate_perturbation_nth:
  "i < length ps \<Longrightarrow> generate_perturbation rnd ps ! i = 1 \<or> generate_perturbation rnd ps ! i = - 1"
  by (simp add: generate_perturbation_def)

lemma c_k_pos: "0 < snd (get_spsa_coefficients k)"
  by (simp add: coefficients_snd)

lemma a_k_pos: "0 < fst (get_spsa_coefficients k)"
  by (simp add: coefficients_fst A_def)

lemma iterate_Inr:
  assumes "iterate env s t = Inr (t', r)"
  defines "k \<equiv> iteration t + 1"
  defines "sp \<equiv> r_score_plus r"
  defines "sm \<equiv> r_score_minus r"
  shows "update_all (fst (get_spsa_coefficients k)) (snd (get_spsa_coefficients k)) sp sm
           (generate_perturbation (randint env) (params t)) (enumerate 0 (params t))
         = Inr (params t')"
    and "iteration t' = k"
    and "current_params t' = dict_of (params t')"
    and "best_score t' = (if sp > best_score t then sp else best_score t)"
    and "best_iteration t' = (if sp > best_score t then k else best_iteration t)"
    and "best_params t' = (if sp > best_score t then dict_of (params t') else best_params t)"
    and "history t' = history t @ [r]"
    and "iteration_scores env s t = Inr (sp, sm)"
    and "r = \<lparr>r_iteration = k, r_score_plus = sp, r_score_minus = sm,
              r_best_score = best_score t', r_best_iteration = best_iteration t',
              r_params = dict_of (params t')\<rparr>"
  using assms(1)
  unfolding k_def sp_def sm_def iteration_scores_def perturbed_def iterate_def
  by (auto simp: Let_def on_ok_eq_Inr track_best_def split: prod.splits if_splits)

lemma update_param_total:
  assumes "c_k \<noteq> 0" "c_end p \<noteq> 0"
  shows "\<exists>p'. update_param a_k c_k sp sm d p = Inr p'"
  using assms by (simp add: update_param_def gradient_of_def Let_def)

lemma update_all_total:
  assumes "c_k \<noteq> 0" "\<forall>x \<in> set xs. c_end (snd x) \<noteq> 0"
  shows "\<exists>ps'. update_all a_k c_k sp sm delta xs = Inr ps'"
  using assms(2)
proof (induction xs)
  case Nil
  then show ?case by simp
next
  case (Cons x xs)
  obtain i p where x: "x = (i, p)" by (cases x)
  from Cons.prems have "c_end p \<noteq> 0" by (simp add: x)
  from update_param_total [OF assms(1) this] obtain p' where
    "update_param a_k c_k sp sm (delta ! i) p = Inr p'" by blast
  moreover from Cons obtain ps' where "update_all a_k c_k sp sm delta xs = Inr ps'" by auto
  ultimately show ?case by (simp add: x)
qed

lemma match_scores_returned:
  "\<exists>sp sm. iteration_scores env False t = Inr (sp, sm)"
  by (simp add: iteration_scores_def estimate_def)

lemma iterate_total:
  assumes "\<forall>p \<in> set (params t). c_end p \<noteq> 0"
    and sc: "iteration_scores env s t = Inr (sp, sm)"
  shows "\<exists>t' r. iterate env s t = Inr (t', r)"
proof -
  let ?k = "iteration t + 1"
  have ck: "snd (get_spsa_coefficients ?k) \<noteq> 0" using c_k_pos [of ?k] by simp
  have ce: "\<forall>x \<in> set (enumerate 0 (params t)). c_end (snd x) \<noteq> 0"
    using assms(1) by (auto dest: set_enumerate_snd)
  from update_all_total [OF ck ce] obtain ps where
    "update_all (fst (get_spsa_coefficients ?k)) (snd (get_spsa_coefficients ?k)) sp sm
       (generate_perturbation (randint env) (params t)) (enumerate 0 (params t)) = Inr ps"
    by blast
  then show ?thesis
    using sc unfolding iterate_def iteration_scores_def perturbed_def
    by (simp add: Let_def case_prod_beta)
qed

lemma iterate_estimator_raises:
  assumes "iteration_scores env s t = Inl e"
  shows "iterate env s t = Inl e"
  using assms unfolding iterate_def iteration_scores_def perturbed_def
  by (simp add: Let_def case_prod_beta)

lemma update_param_neutral:
  assumes "c_k \<noteq> 0" "c_end p \<noteq> 0" "in_bounds p"
  shows "update_param a_k c_k s s d p = Inr p"
  using assms
  by (simp add: update_param_def gradient_of_def step_of_def Let_def clamp_id in_bounds_def)

lemma update_all_neutral:
  assumes "c_k \<noteq> 0" "\<forall>x \<in> set xs. c_end (snd x) \<noteq> 0 \<and> in_bounds (snd x)"
  shows "update_all a_k c_k s s delta xs = Inr (map snd xs)"
  using assms(2)
proof (induction xs)
  case Nil
  then show ?case by simp
next
  case (Cons x xs)
  obtain i p where x: "x = (i, p)" by (cases x)
  from Cons.prems have "c_end p \<noteq> 0" "in_bounds p" by (simp_all add: x)
  from update_param_neutral [OF assms(1) this]
  have "update_param a_k c_k s s (delta ! i) p = Inr p" .
  moreover from Cons have "update_all a_k c_k s s delta xs = Inr (map snd xs)" by simp
  ultimately show ?case by (simp add: x)
qed

lemma map_snd_enumerate [simp]: "map snd (enumerate n xs) = xs"
  by (simp add: enumerate_eq_zip)

lemma gradient_neutral:
  assumes "c_k \<noteq> 0" "c_end p \<noteq> 0" "d \<noteq> 0"
  shows "gradient_of c_k s s d p = Inr 0"
  using assms by (simp add: gradient_of_def)

lemma TunableParam_init_c_end: "c_end (TunableParam_init n v lo hi c a) \<noteq> 0"
  by (simp add: TunableParam_init_def post_init_def Let_def max_def)

text \<open>
  C1. In an iteration whose score estimator returns the neutral pair \<open>(0.5, 0.5)\<close> (the
  first hypothesis: it returns, and what it returns is that pair), with
  every parameter within its bounds beforehand, the iteration completes, the gradient and
  the step of every parameter are exactly 0, and every parameter is left as it was.
  The third hypothesis is what the constructor establishes (\<open>TunableParam_init_c_end\<close>)
  and every iteration preserves: without it the division of the source raises.
\<close>

theorem neutral_scores_no_op:
  assumes "iteration_scores env use_simple_games t = Inr (1 / 2, 1 / 2)"
    and "\<forall>p \<in> set (params t). min_val p \<le> val p \<and> val p \<le> max_val p"
    and "\<forall>p \<in> set (params t). c_end p \<noteq> 0"
  shows "\<exists>t' r. iterate env use_simple_games t = Inr (t', r)
           \<and> params t' = params t \<and> current_params t' = dict_of (params t)
           \<and> r_score_plus r = 1 / 2 \<and> r_score_minus r = 1 / 2
           \<and> (\<forall>i < length (params t).
                 gradient_of (snd (get_spsa_coefficients (iteration t + 1))) (1 / 2) (1 / 2)
                   (generate_perturbation (randint env) (params t) ! i) (params t ! i) = Inr 0
               \<and> step_of (fst (get_spsa_coefficients (iteration t + 1))) (params t ! i) 0 = 0)"
proof -
  let ?k = "iteration t + 1"
  let ?delta = "generate_perturbation (randint env) (params t)"
  have ck: "snd (get_spsa_coefficients ?k) \<noteq> 0" using c_k_pos [of ?k] by simp
  from iterate_total [OF assms(3) assms(1)] obtain t' r where
    it: "iterate env use_simple_games t = Inr (t', r)" by blast
  have sc: "r_score_plus r = 1 / 2 \<and> r_score_minus r = 1 / 2"
    using iterate_Inr(8) [OF it] assms(1) by simp
  have "\<forall>x \<in> set (enumerate 0 (params t)). c_end (snd x) \<noteq> 0 \<and> in_bounds (snd x)"
    using assms(2,3) by (auto simp: in_bounds_def dest: set_enumerate_snd)
  from update_all_neutral [OF ck this]
  have "update_all (fst (get_spsa_coefficients ?k)) (snd (get_spsa_coefficients ?k))
          (1 / 2) (1 / 2) ?delta (enumerate 0 (params t)) = Inr (params t)"
    by simp
  with iterate_Inr(1) [OF it] sc have same: "params t' = params t" by simp
  have cur: "current_params t' = dict_of (params t)"
    using iterate_Inr(3) [OF it] same by simp
  have grad: "gradient_of (snd (get_spsa_coefficients ?k)) (1 / 2) (1 / 2) (?delta ! i)
                (params t ! i) = Inr 0
              \<and> step_of (fst (get_spsa_coefficients ?k)) (params t ! i) 0 = 0"
    if "i < length (params t)" for i
  proof -
    have "c_end (params t ! i) \<noteq> 0" using assms(3) that by simp
    moreover have "?delta ! i \<noteq> 0" using generate_perturbation_nth [OF that, of "randint env"] by auto
    ultimately show ?thesis using ck by (simp add: gradient_neutral step_of_def)
  qed
  from it same cur sc grad show ?thesis by blast
qed

lemma pawn_param_fields:
  "name pawn_param = ''PawnValueMG''" "val pawn_param = 100" "min_val pawn_param = 70"
  "max_val pawn_param = 130" "c_end pawn_param = 12 / 10" "a_end pawn_param = 12 / 100"
  by (simp_all add: pawn_param_def TunableParam4_def TunableParam_init_def post_init_def Let_def)

lemma no_runner_scores:
  "iteration_scores (env_with no_runner) False t = Inr (1 / 2, 1 / 2)"
  by (simp add: iteration_scores_def estimate_def env_with_def run_games_def
      subprocess_run_def no_runner_def)

theorem neutral_scores_no_op_witness:
  "\<exists>t' r. iterate (env_with no_runner) False (SPSATuner_init [pawn_param]) = Inr (t', r)
      \<and> params t' = [pawn_param] \<and> current_params t' = dict_of [pawn_param]
      \<and> r_score_plus r = 1 / 2 \<and> r_score_minus r = 1 / 2
      \<and> gradient_of (snd (get_spsa_coefficients 1)) (1 / 2) (1 / 2) 1 pawn_param = Inr 0
      \<and> step_of (fst (get_spsa_coefficients 1)) pawn_param 0 = 0"
proof -
  let ?t = "SPSATuner_init [pawn_param]"
  have h1: "iteration_scores (env_with no_runner) False ?t = Inr (1 / 2, 1 / 2)"
    by (rule no_runner_scores)
  have h2: "\<forall>p \<in> set (params ?t). min_val p \<le> val p \<and> val p \<le> max_val p"
    by (simp add: SPSATuner_init_def pawn_param_fields)
  have h3: "\<forall>p \<in> set (params ?t). c_end p \<noteq> 0"
    by (simp add: SPSATuner_init_def pawn_param_fields)
  have d: "generate_perturbation (randint (env_with no_runner)) (params ?t) ! 0 = 1"
    by (simp add: generate_perturbation_def env_with_def SPSATuner_init_def)
  from neutral_scores_no_op [OF h1 h2 h3] obtain t' r where
    r: "iterate (env_with no_runner) False ?t = Inr (t', r)"
       "params t' = params ?t" "current_params t' = dict_of (params ?t)"
       "r_score_plus r = 1 / 2" "r_score_minus r = 1 / 2"
    and g: "\<forall>i < length (params ?t).
                 gradient_of (snd (get_spsa_coefficients (iteration ?t + 1))) (1 / 2) (1 / 2)
                   (generate_perturbation (randint (env_with no_runner)) (params ?t) ! i)
                   (params ?t ! i) = Inr 0
               \<and> step_of (fst (get_spsa_coefficients (iteration ?t + 1))) (params ?t ! i) 0 = 0"
    by blast
  have "0 < length (params ?t)" by (simp add: SPSATuner_init_def)
  with g have "gradient_of (snd (get_spsa_coefficients (iteration ?t + 1))) (1 / 2) (1 / 2)
                   (generate_perturbation (randint (env_with no_runner)) (params ?t) ! 0)
                   (params ?t ! 0) = Inr 0
               \<and> step_of (fst (get_spsa_coefficients (iteration ?t + 1))) (params ?t ! 0) 0 = 0"
    by blast
  then have g0: "gradient_of (snd (get_spsa_coefficients 1)) (1 / 2) (1 / 2) 1 pawn_param = Inr 0
      \<and> step_of (fst (get_spsa_coefficients 1)) pawn_param 0 = 0"
    unfolding d by (simp add: SPSATuner_init_def)
  from r g0 show ?thesis by (simp add: SPSATuner_init_def)
qed

lemma iterate_preserves_bounds:
  assumes "iterate env s t = Inr (t', r)" and "\<forall>p \<in> set (params t). in_bounds p"
  shows "\<forall>p' \<in> set (params t'). in_bounds p'"
proof -
  have "\<forall>x \<in> set (enumerate 0 (params t)). in_bounds (snd x)"
    using assms(2) by (auto dest: set_enumerate_snd)
  with update_all_Inr [OF iterate_Inr(1) [OF assms(1)]] show ?thesis by blast
qed

lemma iterate_preserves_limits:
  assumes "iterate env s t = Inr (t', r)"
  shows "map name (params t') = map name (params t)
       \<and> map min_val (params t') = map min_val (params t)
       \<and> map max_val (params t') = map max_val (params t)
       \<and> map c_end (params t') = map c_end (params t)"
  using update_all_Inr [OF iterate_Inr(1) [OF assms]]
  by (simp flip: map_map)

lemma run_preserves_bounds:
  assumes "run envs s n t = Inr t'" and "\<forall>p \<in> set (params t). in_bounds p"
  shows "\<forall>p' \<in> set (params t'). in_bounds p'"
  using assms(1)
proof (induction n arbitrary: t')
  case 0
  then show ?case using assms(2) by simp
next
  case (Suc n)
  from Suc.prems obtain t1 r where
    a: "run envs s n t = Inr t1" and b: "iterate (envs n) s t1 = Inr (t', r)"
    by (auto simp: on_ok_eq_Inr)
  from iterate_preserves_bounds [OF b Suc.IH [OF a]] show ?case .
qed

text \<open>
  C2. For parameters with \<open>min \<le> max\<close>, every value the tuner writes stays within
  bounds: both candidates \<open>clamp (value + offset)\<close> and \<open>clamp (value - offset)\<close> for any
  offset (so also the value after the update, where the offset is the step), and every
  entry of the two perturbed parameter sets; hence \<open>min \<le> value \<le> max\<close>, once it holds,
  holds after every iteration and after any number of iterations of \<open>run\<close>, the bounds
  themselves being left alone.
\<close>

theorem values_stay_in_bounds:
  assumes "\<forall>p \<in> set (params t). min_val p \<le> max_val p"
  shows "(\<forall>p \<in> set (params t). \<forall>offset.
            min_val p \<le> clamp p (val p + offset) \<and> clamp p (val p + offset) \<le> max_val p
          \<and> min_val p \<le> clamp p (val p - offset) \<and> clamp p (val p - offset) \<le> max_val p)
       \<and> entries_bounded (params t) (fst (perturbed env t))
       \<and> entries_bounded (params t) (snd (perturbed env t))
       \<and> ((\<forall>p \<in> set (params t). min_val p \<le> val p \<and> val p \<le> max_val p) \<longrightarrow>
            (\<forall>t' r. iterate env use_simple_games t = Inr (t', r) \<longrightarrow>
               (\<forall>p' \<in> set (params t'). min_val p' \<le> val p' \<and> val p' \<le> max_val p')
             \<and> map min_val (params t') = map min_val (params t)
             \<and> map max_val (params t') = map max_val (params t))
          \<and> (\<forall>n t'. run envs use_simple_games n t = Inr t' \<longrightarrow>
               (\<forall>p' \<in> set (params t'). min_val p' \<le> val p' \<and> val p' \<le> max_val p')))"
proof -
  have a: "\<forall>p \<in> set (params t). \<forall>offset.
            min_val p \<le> clamp p (val p + offset) \<and> clamp p (val p + offset) \<le> max_val p
          \<and> min_val p \<le> clamp p (val p - offset) \<and> clamp p (val p - offset) \<le> max_val p"
    using assms by (simp add: clamp_bounds)
  note b = perturbed_bounded [OF assms, of env]
  have c: "(\<forall>p' \<in> set (params t'). min_val p' \<le> val p' \<and> val p' \<le> max_val p')
             \<and> map min_val (params t') = map min_val (params t)
             \<and> map max_val (params t') = map max_val (params t)"
    if "\<forall>p \<in> set (params t). min_val p \<le> val p \<and> val p \<le> max_val p"
      and "iterate env use_simple_games t = Inr (t', r)" for t' r
    using iterate_preserves_bounds [OF that(2)] iterate_preserves_limits [OF that(2)] that(1)
    by (simp add: in_bounds_def)
  have d: "\<forall>p' \<in> set (params t'). min_val p' \<le> val p' \<and> val p' \<le> max_val p'"
    if "\<forall>p \<in> set (params t). min_val p \<le> val p \<and> val p \<le> max_val p"
      and "run envs use_simple_games n t = Inr t'" for n t'
    using run_preserves_bounds [OF that(2)] that(1) by (simp add: in_bounds_def)
  from a b c d show ?thesis by blast
qed

lemma iterate_preserves_c_end:
  assumes "iterate env s t = Inr (t', r)" and "\<forall>p \<in> set (params t). c_end p \<noteq> 0"
  shows "\<forall>p' \<in> set (params t'). c_end p' \<noteq> 0"
proof -
  have "set (map c_end (params t')) = set (map c_end (params t))"
    using iterate_preserves_limits [OF assms(1)] by simp
  then have "c_end ` set (params t') = c_end ` set (params t)" by simp
  with assms(2) show ?thesis by (metis imageE imageI)
qed

lemma run_total:
  assumes "\<forall>p \<in> set (params t). c_end p \<noteq> 0"
  shows "\<exists>t'. run envs False n t = Inr t' \<and> (\<forall>p' \<in> set (params t'). c_end p' \<noteq> 0)"
proof (induction n)
  case 0
  then show ?case using assms by simp
next
  case (Suc n)
  then obtain t1 where a: "run envs False n t = Inr t1"
    and c: "\<forall>p \<in> set (params t1). c_end p \<noteq> 0"
    by blast
  from match_scores_returned obtain sp sm where
    sc: "iteration_scores (envs n) False t1 = Inr (sp, sm)" by blast
  from iterate_total [OF c sc] obtain t' r where b: "iterate (envs n) False t1 = Inr (t', r)"
    by blast
  from iterate_preserves_c_end [OF b c] a b show ?case by simp
qed

theorem values_stay_in_bounds_witness:
  "min_val pawn_param \<le> clamp pawn_param (val pawn_param + 1000)
   \<and> clamp pawn_param (val pawn_param + 1000) \<le> max_val pawn_param
   \<and> min_val pawn_param \<le> clamp pawn_param (val pawn_param - 1000)
   \<and> clamp pawn_param (val pawn_param - 1000) \<le> max_val pawn_param
   \<and> entries_bounded [pawn_param] (fst (perturbed (env_with no_runner) (SPSATuner_init [pawn_param])))
   \<and> entries_bounded [pawn_param] (snd (perturbed (env_with no_runner) (SPSATuner_init [pawn_param])))
   \<and> (\<exists>t' r. iterate (env_with no_runner) False (SPSATuner_init [pawn_param]) = Inr (t', r)
         \<and> list_all (\<lambda>p. min_val p \<le> val p \<and> val p \<le> max_val p) (params t'))
   \<and> (\<exists>t'. run (\<lambda>i. env_with no_runner) False 3 (SPSATuner_init [pawn_param]) = Inr t'
         \<and> list_all (\<lambda>p. min_val p \<le> val p \<and> val p \<le> max_val p) (params t'))"
proof -
  let ?t = "SPSATuner_init [pawn_param]"
  let ?env = "env_with no_runner"
  have ps: "params ?t = [pawn_param]" by (simp add: SPSATuner_init_def)
  have h: "\<forall>p \<in> set (params ?t). min_val p \<le> max_val p"
    by (simp add: ps pawn_param_fields)
  have i: "\<forall>p \<in> set (params ?t). min_val p \<le> val p \<and> val p \<le> max_val p"
    by (simp add: ps pawn_param_fields)
  have c: "\<forall>p \<in> set (params ?t). c_end p \<noteq> 0"
    by (simp add: ps pawn_param_fields)
  note th = values_stay_in_bounds [OF h, of ?env False "\<lambda>i. ?env"]
  from iterate_total [OF c no_runner_scores] obtain t1 r where
    it: "iterate ?env False ?t = Inr (t1, r)" by blast
  from run_total [OF c] obtain t3 where rn: "run (\<lambda>i. ?env) False 3 ?t = Inr t3" by blast
  from th i it have b1: "list_all (\<lambda>p. min_val p \<le> val p \<and> val p \<le> max_val p) (params t1)"
    unfolding list_all_iff by blast
  from th i rn have b3: "list_all (\<lambda>p. min_val p \<le> val p \<and> val p \<le> max_val p) (params t3)"
    unfolding list_all_iff by blast
  from th have "\<forall>offset.
            min_val pawn_param \<le> clamp pawn_param (val pawn_param + offset)
          \<and> clamp pawn_param (val pawn_param + offset) \<le> max_val pawn_param
          \<and> min_val pawn_param \<le> clamp pawn_param (val pawn_param - offset)
          \<and> clamp pawn_param (val pawn_param - offset) \<le> max_val pawn_param"
    unfolding ps by simp
  then have a: "min_val pawn_param \<le> clamp pawn_param (val pawn_param + 1000)
   \<and> clamp pawn_param (val pawn_param + 1000) \<le> max_val pawn_param
   \<and> min_val pawn_param \<le> clamp pawn_param (val pawn_param - 1000)
   \<and> clamp pawn_param (val pawn_param - 1000) \<le> max_val pawn_param"
    by blast
  from th have e: "entries_bounded [pawn_param] (fst (perturbed ?env ?t))
       \<and> entries_bounded [pawn_param] (snd (perturbed ?env ?t))"
    unfolding ps by blast
  from a e it b1 rn b3 show ?thesis by blast
qed

subsection \<open>Tracking the best score\<close>







subsection \<open>The match-based estimator\<close>

lemma find_score_line_none:
  "\<forall>line \<in> set ls. \<not> py_in ''Score of Plus vs Minus'' line \<Longrightarrow> find_score_line ls = Inr (0, 0, 0)"
  by (induction ls) simp_all

lemma score_sum:
  fixes wp wm d :: int
  assumes "wp + wm + d \<noteq> 0"
  shows "(real_of_int wp + real_of_int d * (1 / 2)) / real_of_int (wp + wm + d)
       + (real_of_int wm + real_of_int d * (1 / 2)) / real_of_int (wp + wm + d) = 1"
proof -
  have "real_of_int (wp + wm + d) \<noteq> 0" using assms by simp
  then show ?thesis
    by (simp add: add_divide_distrib [symmetric])
qed

lemma run_games_completed:
  assumes "\<not> launch_fails p" "duration p \<le> 3600"
  shows "run_games p =
          (case find_score_line (py_split [CHR 0x0A] (stdout p)) of
             Inl e \<Rightarrow> (1 / 2, 1 / 2) | Inr cnt \<Rightarrow> score_of_counts cnt)"
  using assms by (simp add: run_games_def subprocess_run_def)

lemma run_games_timeout: "3600 < duration p \<Longrightarrow> run_games p = (1 / 2, 1 / 2)"
  by (simp add: run_games_def subprocess_run_def)

lemma run_games_launch: "launch_fails p \<Longrightarrow> run_games p = (1 / 2, 1 / 2)"
  by (simp add: run_games_def subprocess_run_def)

text \<open>
  C3. Given parsed counts with a positive total, the match-based estimator returns
  \<open>(wins_plus + 0.5 * draws) / total\<close> and \<open>(wins_minus + 0.5 * draws) / total\<close>, which
  sum to 1. With a total of 0, when the match runner exceeds its time limit or cannot be
  started, when reading the result line raises, and when no line of the output is a
  result line, it returns exactly \<open>(0.5, 0.5)\<close>; being a total function into pairs of
  reals, \<open>run_games\<close> has no exceptional outcome left.
\<close>

theorem match_scores:
  "(\<not> launch_fails p \<and> duration p \<le> 3600
      \<and> find_score_line (py_split [CHR 0x0A] (stdout p)) = Inr (wins_plus, wins_minus, draws)
      \<and> 0 < wins_plus + wins_minus + draws \<longrightarrow>
        run_games p =
          ((real_of_int wins_plus + 0.5 * real_of_int draws)
              / real_of_int (wins_plus + wins_minus + draws),
           (real_of_int wins_minus + 0.5 * real_of_int draws)
              / real_of_int (wins_plus + wins_minus + draws))
      \<and> fst (run_games p) + snd (run_games p) = 1)
   \<and> (\<not> launch_fails p \<and> duration p \<le> 3600
      \<and> find_score_line (py_split [CHR 0x0A] (stdout p)) = Inr (wins_plus, wins_minus, draws)
      \<and> wins_plus + wins_minus + draws = 0 \<longrightarrow> run_games p = (0.5, 0.5))
   \<and> (3600 < duration p \<longrightarrow> run_games p = (0.5, 0.5))
   \<and> (launch_fails p \<longrightarrow> run_games p = (0.5, 0.5))
   \<and> (find_score_line (py_split [CHR 0x0A] (stdout p)) = Inl e \<longrightarrow> run_games p = (0.5, 0.5))
   \<and> ((\<forall>line \<in> set (py_split [CHR 0x0A] (stdout p)). \<not> py_in ''Score of Plus vs Minus'' line)
        \<longrightarrow> run_games p = (0.5, 0.5))"
proof (intro conjI impI; (elim conjE)?)
  assume a: "\<not> launch_fails p" "duration p \<le> 3600"
    "find_score_line (py_split [CHR 0x0A] (stdout p)) = Inr (wins_plus, wins_minus, draws)"
    "0 < wins_plus + wins_minus + draws"
  then have nz: "wins_plus + wins_minus + draws \<noteq> 0" by simp
  show r: "run_games p =
          ((real_of_int wins_plus + 0.5 * real_of_int draws)
              / real_of_int (wins_plus + wins_minus + draws),
           (real_of_int wins_minus + 0.5 * real_of_int draws)
              / real_of_int (wins_plus + wins_minus + draws))"
    using a nz by (simp add: run_games_completed score_of_counts_def)
  show "fst (run_games p) + snd (run_games p) = 1"
    using score_sum [OF nz] unfolding r by simp
next
  assume "\<not> launch_fails p" "duration p \<le> 3600"
    "find_score_line (py_split [CHR 0x0A] (stdout p)) = Inr (wins_plus, wins_minus, draws)"
    "wins_plus + wins_minus + draws = 0"
  then show "run_games p = (0.5, 0.5)"
    by (simp add: run_games_completed score_of_counts_def)
next
  assume "3600 < duration p"
  then show "run_games p = (0.5, 0.5)" by (simp add: run_games_timeout)
next
  assume "launch_fails p"
  then show "run_games p = (0.5, 0.5)" by (simp add: run_games_launch)
next
  assume "find_score_line (py_split [CHR 0x0A] (stdout p)) = Inl e"
  then show "run_games p = (0.5, 0.5)"
    by (cases "launch_fails p \<or> 3600 < duration p")
      (auto simp: run_games_def subprocess_run_def)
next
  assume "\<forall>line \<in> set (py_split [CHR 0x0A] (stdout p)). \<not> py_in ''Score of Plus vs Minus'' line"
  from find_score_line_none [OF this] show "run_games p = (0.5, 0.5)"
    by (cases "launch_fails p \<or> 3600 < duration p")
      (auto simp: run_games_def subprocess_run_def score_of_counts_def)
qed

lemma sample_counts:
  "find_score_line (py_split [CHR 0x0A] ''Score of Plus vs Minus: 3 - 1 - 2  [0.667] 6'') = Inr (3, 1, 2)"
  "find_score_line (py_split [CHR 0x0A] ''Score of Plus vs Minus: 0 - 0 - 0  [-nan] 0'') = Inr (0, 0, 0)"
  "find_score_line (py_split [CHR 0x0A] ''Score of Plus vs Minus: a - b - c'') = Inl ValueError"
  "find_score_line (py_split [CHR 0x0A] ''Score of Plus vs Minus: 3 - 1 - 0  [0.750] 4'') = Inr (3, 1, 0)"
  by code_simp+

lemma no_score_line:
  "list_all (\<lambda>line. \<not> py_in ''Score of Plus vs Minus'' line) (py_split [CHR 0x0A] ''Finished match'')"
  by code_simp

theorem match_scores_witness:
  "run_games (runner_reporting ''Score of Plus vs Minus: 3 - 1 - 2  [0.667] 6'')
     = ((3 + 0.5 * 2) / 6, (1 + 0.5 * 2) / 6)
   \<and> fst (run_games (runner_reporting ''Score of Plus vs Minus: 3 - 1 - 2  [0.667] 6''))
     + snd (run_games (runner_reporting ''Score of Plus vs Minus: 3 - 1 - 2  [0.667] 6'')) = 1
   \<and> run_games (runner_reporting ''Score of Plus vs Minus: 0 - 0 - 0  [-nan] 0'') = (0.5, 0.5)
   \<and> run_games \<lparr>launch_fails = False, duration = 4000, stdout = []\<rparr> = (0.5, 0.5)
   \<and> run_games no_runner = (0.5, 0.5)
   \<and> run_games (runner_reporting ''Score of Plus vs Minus: a - b - c'') = (0.5, 0.5)
   \<and> run_games (runner_reporting ''Finished match'') = (0.5, 0.5)"
proof -
  let ?good = "runner_reporting ''Score of Plus vs Minus: 3 - 1 - 2  [0.667] 6''"
  have g: "\<not> launch_fails ?good \<and> duration ?good \<le> 3600
      \<and> find_score_line (py_split [CHR 0x0A] (stdout ?good)) = Inr (3, 1, 2)
      \<and> (0::int) < 3 + 1 + 2"
    by (simp add: runner_reporting_def sample_counts)
  from match_scores [of ?good 3 1 2, THEN conjunct1, THEN mp, OF g]
  have a: "run_games ?good = ((3 + 0.5 * 2) / 6, (1 + 0.5 * 2) / 6)
      \<and> fst (run_games ?good) + snd (run_games ?good) = 1"
    by simp
  let ?zero = "runner_reporting ''Score of Plus vs Minus: 0 - 0 - 0  [-nan] 0''"
  have z: "\<not> launch_fails ?zero \<and> duration ?zero \<le> 3600
      \<and> find_score_line (py_split [CHR 0x0A] (stdout ?zero)) = Inr (0, 0, 0)
      \<and> (0::int) + 0 + 0 = 0"
    by (simp add: runner_reporting_def sample_counts)
  from match_scores [of ?zero 0 0 0, THEN conjunct2, THEN conjunct1, THEN mp, OF z]
  have b: "run_games ?zero = (0.5, 0.5)" .
  let ?slow = "\<lparr>launch_fails = False, duration = 4000, stdout = []\<rparr>"
  have "3600 < duration ?slow" by simp
  from match_scores [of ?slow, THEN conjunct2, THEN conjunct2, THEN conjunct1, THEN mp, OF this]
  have c: "run_games ?slow = (0.5, 0.5)" .
  have "launch_fails no_runner" by (simp add: no_runner_def)
  from match_scores [of no_runner, THEN conjunct2, THEN conjunct2, THEN conjunct2,
      THEN conjunct1, THEN mp, OF this]
  have d: "run_games no_runner = (0.5, 0.5)" .
  let ?bad = "runner_reporting ''Score of Plus vs Minus: a - b - c''"
  have "find_score_line (py_split [CHR 0x0A] (stdout ?bad)) = Inl ValueError"
    by (simp add: runner_reporting_def sample_counts)
  from match_scores [of ?bad _ _ _ ValueError, THEN conjunct2, THEN conjunct2, THEN conjunct2,
      THEN conjunct2, THEN conjunct1, THEN mp, OF this]
  have e: "run_games ?bad = (0.5, 0.5)" .
  let ?none = "runner_reporting ''Finished match''"
  have "\<forall>line \<in> set (py_split [CHR 0x0A] (stdout ?none)). \<not> py_in ''Score of Plus vs Minus'' line"
    using no_score_line by (simp add: runner_reporting_def list_all_iff)
  from match_scores [of ?none, THEN conjunct2, THEN conjunct2, THEN conjunct2,
      THEN conjunct2, THEN conjunct2, THEN mp, OF this]
  have f: "run_games ?none = (0.5, 0.5)" .
  from a b c d e f show ?thesis by (intro conjI) (erule conjunct1, erule conjunct2, assumption+)
qed

text \<open>
  A match that takes 301 seconds is not cut off: its result is read and scored.
\<close>

theorem timeout_300_counterexample:
  "300 < duration \<lparr>launch_fails = False, duration = 301,
                   stdout = ''Score of Plus vs Minus: 3 - 1 - 0  [0.750] 4''\<rparr>
   \<and> run_games \<lparr>launch_fails = False, duration = 301,
                 stdout = ''Score of Plus vs Minus: 3 - 1 - 0  [0.750] 4''\<rparr> = (3 / 4, 1 / 4)
   \<and> run_games \<lparr>launch_fails = False, duration = 301,
                 stdout = ''Score of Plus vs Minus: 3 - 1 - 0  [0.750] 4''\<rparr> \<noteq> (1 / 2, 1 / 2)"
  by (simp add: run_games_completed sample_counts score_of_counts_def)

text \<open>
  C5, amended. The match-based estimator bounds the run of the match runner by 3600
  seconds (not 300): a run that is still going after 3600 seconds yields the neutral pair
  \<open>(0.5, 0.5)\<close>, and a run that ends within 3600 seconds is read and scored in full.
\<close>

theorem match_timeout_3600:
  "(3600 < duration p \<longrightarrow> run_games p = (0.5, 0.5))
   \<and> (\<not> launch_fails p \<and> duration p \<le> 3600 \<longrightarrow>
        run_games p =
          (case find_score_line (py_split [CHR 0x0A] (stdout p)) of
             Inl e \<Rightarrow> (1 / 2, 1 / 2) | Inr cnt \<Rightarrow> score_of_counts cnt))"
  using run_games_timeout [of p] run_games_completed [of p] by simp

theorem match_timeout_3600_witness:
  "run_games \<lparr>launch_fails = False, duration = 3601,
              stdout = ''Score of Plus vs Minus: 3 - 1 - 0  [0.750] 4''\<rparr> = (0.5, 0.5)
   \<and> run_games \<lparr>launch_fails = False, duration = 3600,
              stdout = ''Score of Plus vs Minus: 3 - 1 - 0  [0.750] 4''\<rparr> = (3 / 4, 1 / 4)"
proof -
  let ?out = "''Score of Plus vs Minus: 3 - 1 - 0  [0.750] 4''"
  let ?late = "\<lparr>launch_fails = False, duration = 3601, stdout = ?out\<rparr>"
  let ?intime = "\<lparr>launch_fails = False, duration = 3600, stdout = ?out\<rparr>"
  have "3600 < duration ?late" by simp
  from match_timeout_3600 [of ?late, THEN conjunct1, THEN mp, OF this]
  have a: "run_games ?late = (0.5, 0.5)" .
  have "\<not> launch_fails ?intime \<and> duration ?intime \<le> 3600" by simp
  from match_timeout_3600 [of ?intime, THEN conjunct2, THEN mp, OF this]
  have b: "run_games ?intime = (3 / 4, 1 / 4)"
    by (simp add: sample_counts score_of_counts_def)
  from a b show ?thesis by (rule conjI)
qed

subsection \<open>The evaluation-based estimator\<close>




























subsection \<open>The perft harness\<close>

lemma py_in_iff: "py_in sub s \<longleftrightarrow> (\<exists>a b. s = a @ sub @ b)"
proof (induction s)
  case Nil
  then show ?case by auto
next
  case (Cons c cs)
  show ?case
  proof
    assume "py_in sub (c # cs)"
    then consider "prefix sub (c # cs)" | "py_in sub cs" by auto
    then show "\<exists>a b. c # cs = a @ sub @ b"
    proof cases
      case 1
      then obtain b where "c # cs = sub @ b" by (auto simp: prefix_def)
      then have "c # cs = [] @ sub @ b" by simp
      then show ?thesis by blast
    next
      case 2
      with Cons.IH obtain a b where "cs = a @ sub @ b" by blast
      then have "c # cs = (c # a) @ sub @ b" by simp
      then show ?thesis by blast
    qed
  next
    assume "\<exists>a b. c # cs = a @ sub @ b"
    then obtain a b where ab: "c # cs = a @ sub @ b" by blast
    show "py_in sub (c # cs)"
    proof (cases a)
      case Nil
      with ab have "prefix sub (c # cs)" by (simp add: prefix_def)
      then show ?thesis by simp
    next
      case (Cons x a')
      with ab have "cs = a' @ sub @ b" by simp
      with Cons.IH have "py_in sub cs" by blast
      then show ?thesis by simp
    qed
  qed
qed

lemma words_acc_sublist:
  "w \<in> set (words_acc cur s) \<Longrightarrow> \<exists>a b. cur @ s = a @ w @ b"
proof (induction s arbitrary: cur)
  case Nil
  then have "w = cur" by (auto split: if_splits)
  then have "cur @ [] = [] @ w @ []" by simp
  then show ?case by blast
next
  case (Cons c cs)
  show ?case
  proof (cases "py_isspace c")
    case False
    with Cons.prems have "w \<in> set (words_acc (cur @ [c]) cs)" by simp
    from Cons.IH [OF this] show ?thesis by simp
  next
    case True
    with Cons.prems consider "w = cur" | "w \<in> set (words_acc [] cs)"
      by (auto split: if_splits)
    then show ?thesis
    proof cases
      case 1
      then have "cur @ c # cs = [] @ w @ (c # cs)" by simp
      then show ?thesis by blast
    next
      case 2
      from Cons.IH [OF this] obtain a b where "cs = a @ w @ b" by auto
      then have "cur @ c # cs = (cur @ c # a) @ w @ b" by simp
      then show ?thesis by blast
    qed
  qed
qed

lemma token_py_in: "w \<in> set (py_split_ws line) \<Longrightarrow> py_in w line"
  using words_acc_sublist [of w "[]" line] by (simp add: py_split_ws_def py_in_iff)

lemma scan_parts_none: "''Nodes:'' \<notin> set parts \<Longrightarrow> scan_parts parts = None"
  by (induction parts) auto

lemma scan_parts_first:
  "''Nodes:'' \<notin> set pre \<Longrightarrow> scan_parts (pre @ ''Nodes:'' # tok # post) = Some (int_of tok)"
  by (induction pre) auto

lemma scan_parts_no_int:
  "\<not> nodes_with_int parts \<Longrightarrow> scan_parts parts \<noteq> Some (Inr n)"
  by (induction parts rule: nodes_with_int.induct)
    (auto simp: int_of_def split: option.splits)

lemma scan_lines_no_int:
  "\<forall>line \<in> set ls. \<not> nodes_with_int (py_split_ws line) \<Longrightarrow> scan_lines ls \<noteq> Some (Inr n)"
proof (induction ls)
  case Nil
  then show ?case by simp
next
  case (Cons l ls)
  then have "scan_parts (py_split_ws l) \<noteq> Some (Inr n)" by (simp add: scan_parts_no_int)
  with Cons show ?case by (auto split: option.splits)
qed

lemma scan_lines_first:
  assumes "\<forall>l \<in> set before. ''Nodes:'' \<notin> set (py_split_ws l)"
    and "py_split_ws line = pre @ ''Nodes:'' # tok # post" and "''Nodes:'' \<notin> set pre"
  shows "scan_lines (before @ line # after) = Some (int_of tok)"
  using assms(1)
proof (induction before)
  case Nil
  have "''Nodes:'' \<in> set (py_split_ws line)" using assms(2) by simp
  then have "py_in ''Nodes:'' line" by (rule token_py_in)
  then show ?case using scan_parts_first [OF assms(3), of tok post] assms(2) by simp
next
  case (Cons l before)
  then have "scan_parts (py_split_ws l) = None" by (simp add: scan_parts_none)
  with Cons show ?case by simp
qed

lemma run_perft_completed:
  assumes "\<not> launch_fails p" "duration p \<le> 300"
  shows "run_perft p =
     (case scan_lines (py_split [CHR 0x0A] (stdout p)) of
        Some (Inr nodes) \<Rightarrow> nodes | Some (Inl e) \<Rightarrow> - 1 | None \<Rightarrow> - 1)"
  using assms by (simp add: run_perft_def subprocess_run_def)

text \<open>
  C10. \<open>run_perft\<close> never raises (it is a total function into the integers, every
  exception of the source being a branch that returns \<open>-1\<close>): it returns \<open>-1\<close> when the
  engine exceeds its 300 seconds, when the engine cannot be started, and when no line of
  the output has a token \<^verbatim>\<open>Nodes:\<close> directly followed by an integer; and when the first
  token \<^verbatim>\<open>Nodes:\<close> of the output is followed by an integer, it returns that integer.
\<close>

theorem perft_result:
  "(300 < duration p \<longrightarrow> run_perft p = - 1)
   \<and> (launch_fails p \<longrightarrow> run_perft p = - 1)
   \<and> ((\<forall>line \<in> set (py_split [CHR 0x0A] (stdout p)). \<not> nodes_with_int (py_split_ws line))
        \<longrightarrow> run_perft p = - 1)
   \<and> (\<not> launch_fails p \<and> duration p \<le> 300
        \<and> py_split [CHR 0x0A] (stdout p) = before @ line # after
        \<and> (\<forall>l \<in> set before. ''Nodes:'' \<notin> set (py_split_ws l))
        \<and> py_split_ws line = pre @ ''Nodes:'' # tok # post \<and> ''Nodes:'' \<notin> set pre
        \<and> py_int tok = Some n \<longrightarrow> run_perft p = n)"
proof (intro conjI impI; (elim conjE)?)
  assume "300 < duration p"
  then show "run_perft p = - 1" by (simp add: run_perft_def subprocess_run_def)
next
  assume "launch_fails p"
  then show "run_perft p = - 1" by (simp add: run_perft_def subprocess_run_def)
next
  assume a: "\<forall>line \<in> set (py_split [CHR 0x0A] (stdout p)). \<not> nodes_with_int (py_split_ws line)"
  show "run_perft p = - 1"
  proof (cases "launch_fails p \<or> 300 < duration p")
    case True
    then show ?thesis by (auto simp: run_perft_def subprocess_run_def)
  next
    case False
    then have "run_perft p =
       (case scan_lines (py_split [CHR 0x0A] (stdout p)) of
          Some (Inr nodes) \<Rightarrow> nodes | Some (Inl e) \<Rightarrow> - 1 | None \<Rightarrow> - 1)"
      by (simp add: run_perft_completed)
    with scan_lines_no_int [OF a] show ?thesis
      by (auto split: option.splits sum.splits)
  qed
next
  assume a: "\<not> launch_fails p" "duration p \<le> 300"
    "py_split [CHR 0x0A] (stdout p) = before @ line # after"
    "\<forall>l \<in> set before. ''Nodes:'' \<notin> set (py_split_ws l)"
    "py_split_ws line = pre @ ''Nodes:'' # tok # post" "''Nodes:'' \<notin> set pre"
    "py_int tok = Some n"
  from scan_lines_first [OF a(4,5,6)] a(3,7)
  have "scan_lines (py_split [CHR 0x0A] (stdout p)) = Some (Inr n)"
    by (simp add: int_of_def)
  then show "run_perft p = n" using a(1,2) by (simp add: run_perft_completed)
qed

lemma perft_samples:
  "list_all (\<lambda>line. \<not> nodes_with_int (py_split_ws line)) (py_split [CHR 0x0A] ''Nodes: abc'')"
  "list_all (\<lambda>line. \<not> nodes_with_int (py_split_ws line)) (py_split [CHR 0x0A] ''bestmove e2e4'')"
  "py_split [CHR 0x0A] (''Depth 3'' @ [CHR 0x0A] @ ''Total Nodes: 8902'' @ [CHR 0x0A] @ ''Time: 3 ms'')
     = [''Depth 3''] @ ''Total Nodes: 8902'' # [''Time: 3 ms'']"
  "list_all (\<lambda>l. ''Nodes:'' \<notin> set (py_split_ws l)) [''Depth 3'']"
  "py_split_ws ''Total Nodes: 8902'' = [''Total''] @ ''Nodes:'' # ''8902'' # []"
  "py_int ''8902'' = Some 8902"
  by code_simp+

theorem perft_result_witness:
  "run_perft \<lparr>launch_fails = False, duration = 301, stdout = ''Nodes: 20''\<rparr> = - 1
   \<and> run_perft no_runner = - 1
   \<and> run_perft (engine_reporting ''Nodes: abc'') = - 1
   \<and> run_perft (engine_reporting ''bestmove e2e4'') = - 1
   \<and> run_perft (engine_reporting
        (''Depth 3'' @ [CHR 0x0A] @ ''Total Nodes: 8902'' @ [CHR 0x0A] @ ''Time: 3 ms'')) = 8902"
proof -
  let ?slow = "\<lparr>launch_fails = False, duration = 301, stdout = ''Nodes: 20''\<rparr>"
  let ?out = "''Depth 3'' @ [CHR 0x0A] @ ''Total Nodes: 8902'' @ [CHR 0x0A] @ ''Time: 3 ms''"
  have "300 < duration ?slow" by simp
  from perft_result [of ?slow, THEN conjunct1, THEN mp, OF this]
  have a: "run_perft ?slow = - 1" .
  have "launch_fails no_runner" by (simp add: no_runner_def)
  from perft_result [of no_runner, THEN conjunct2, THEN conjunct1, THEN mp, OF this]
  have b: "run_perft no_runner = - 1" .
  have "\<forall>line \<in> set (py_split [CHR 0x0A] (stdout (engine_reporting ''Nodes: abc''))).
          \<not> nodes_with_int (py_split_ws line)"
    using perft_samples(1) by (simp add: engine_reporting_def list_all_iff)
  from perft_result [of "engine_reporting ''Nodes: abc''", THEN conjunct2, THEN conjunct2,
      THEN conjunct1, THEN mp, OF this]
  have c: "run_perft (engine_reporting ''Nodes: abc'') = - 1" .
  have "\<forall>line \<in> set (py_split [CHR 0x0A] (stdout (engine_reporting ''bestmove e2e4''))).
          \<not> nodes_with_int (py_split_ws line)"
    using perft_samples(2) by (simp add: engine_reporting_def list_all_iff)
  from perft_result [of "engine_reporting ''bestmove e2e4''", THEN conjunct2, THEN conjunct2,
      THEN conjunct1, THEN mp, OF this]
  have d: "run_perft (engine_reporting ''bestmove e2e4'') = - 1" .
  have h: "\<not> launch_fails (engine_reporting ?out) \<and> duration (engine_reporting ?out) \<le> 300
        \<and> py_split [CHR 0x0A] (stdout (engine_reporting ?out))
            = [''Depth 3''] @ ''Total Nodes: 8902'' # [''Time: 3 ms'']
        \<and> (\<forall>l \<in> set [''Depth 3'']. ''Nodes:'' \<notin> set (py_split_ws l))
        \<and> py_split_ws ''Total Nodes: 8902'' = [''Total''] @ ''Nodes:'' # ''8902'' # []
        \<and> ''Nodes:'' \<notin> set [''Total'']
        \<and> py_int ''8902'' = Some 8902"
    using perft_samples(3-6) by (simp add: engine_reporting_def list_all_iff)
  from perft_result [of "engine_reporting ?out" "[''Depth 3'']" "''Total Nodes: 8902''"
      "[''Time: 3 ms'']" "[''Total'']" "''8902''" "[]" 8902,
      THEN conjunct2, THEN conjunct2, THEN conjunct2, THEN mp, OF h]
  have e: "run_perft (engine_reporting ?out) = 8902" .
  show ?thesis by (rule conjI [OF a conjI [OF b conjI [OF c conjI [OF d e]]]])
qed

subsection \<open>The persisted results\<close>

text \<open>
  C6. The field \<^verbatim>\<open>initial_params\<close> of the results is computed from the module's
  \<^verbatim>\<open>DEFAULT_PARAMS\<close> as the midpoint of each range, not from the values the tuner started
  with: for the tuner that \<^verbatim>\<open>main\<close> builds it reports 100 for \<^verbatim>\<open>KingSafetyWeight\<close>,
  whose value at the start is 83, and for a tuner built with a parameter of another name it
  has no entry for that parameter.
\<close>

theorem initial_params_midpoint:
  "initial_params (save_results round4 (SPSATuner_init main_params)) ''KingSafetyWeight'' = Some 100
   \<and> current_params (SPSATuner_init main_params) ''KingSafetyWeight'' = Some 83
   \<and> initial_params (save_results round4 (SPSATuner_init [pawn_param\<lparr>name := ''Tempo''\<rparr>])) ''Tempo''
       = None"
  by (simp add: save_results_def initial_params_of_def SPSATuner_init_def dict_of_def
      main_params_def DEFAULT_PARAMS_def TunableParam4_def TunableParam_init_def
      post_init_def Let_def py_trunc_def)

end
